theory Spec2Isabelle
  imports Complex_Main
begin

section \<open>Completeness magnitude estimation: the data model\<close>

text \<open>
  The development embeds the class \<open>Catalog\<close> of \<open>completeness_magnitude.py\<close>: its
  constructor and the two estimators \<open>maximum_curvature\<close> and \<open>goodness_of_fit_test\<close>.

  Numbers. The program computes with IEEE double precision numbers. They are modelled by
  the type \<open>fl\<close>: a finite value is an exact real, and the three special values the
  program can produce (not-a-number and the two infinities) are constructors of their own.
  Arithmetic on finite values is exact (no rounding, no overflow, no negative zero);
  arithmetic on special values follows the IEEE rules that numpy applies, which give a
  special value and a warning where Python's own floats would raise. The magnitudes of
  the input catalog and the bin width are finite numbers, hence of type \<open>real\<close>:
  the script \<open>example.py\<close> keeps only the rows whose magnitude is above -2, which
  removes the rows without a magnitude before the object is built.

  Effects. Plots and console messages are not modelled; an exception is the value
  \<open>Inl name\<close>, with the name of the Python exception class.
\<close>

datatype fl = Fin real | PInf | NInf | NaN

type_synonym exn = string

text \<open>A row of the data frame: the \<open>DateTime\<close> cell may be missing (\<open>None\<close>),
  which matters to \<open>count()\<close>, and the \<open>Magnitude\<close> cell is a finite number.\<close>

record event =
  DateTime :: "int option"
  Magnitude :: real

text \<open>The attributes that \<open>__init__\<close> sets.\<close>

record Catalog =
  path_to_figures :: string
  catalog :: "event list"
  delta_magnitude :: real
  magnitudes_in_catalog :: "real list"
  cumulative_magnitude_frequency :: "nat list"

subsection \<open>Arithmetic of numpy scalars\<close>

fun fl_neg :: "fl \<Rightarrow> fl" where
  "fl_neg (Fin x) = Fin (- x)"
| "fl_neg PInf = NInf"
| "fl_neg NInf = PInf"
| "fl_neg NaN = NaN"

fun fl_add :: "fl \<Rightarrow> fl \<Rightarrow> fl" where
  "fl_add (Fin x) (Fin y) = Fin (x + y)"
| "fl_add NaN _ = NaN"
| "fl_add _ NaN = NaN"
| "fl_add PInf NInf = NaN"
| "fl_add NInf PInf = NaN"
| "fl_add PInf _ = PInf"
| "fl_add NInf _ = NInf"
| "fl_add _ PInf = PInf"
| "fl_add _ NInf = NInf"

definition fl_sub :: "fl \<Rightarrow> fl \<Rightarrow> fl" where
  "fl_sub a b = fl_add a (fl_neg b)"

text \<open>The sign of a value that is not NaN: \<open>-1\<close>, \<open>0\<close> or \<open>1\<close>.\<close>

fun fl_sgn :: "fl \<Rightarrow> int" where
  "fl_sgn (Fin x) = (if x < 0 then - 1 else if x = 0 then 0 else 1)"
| "fl_sgn PInf = 1"
| "fl_sgn NInf = - 1"
| "fl_sgn NaN = 0"

definition inf_of_sign :: "int \<Rightarrow> fl" where
  "inf_of_sign s = (if s = 0 then NaN else if 0 < s then PInf else NInf)"

fun fl_mult :: "fl \<Rightarrow> fl \<Rightarrow> fl" where
  "fl_mult (Fin x) (Fin y) = Fin (x * y)"
| "fl_mult NaN _ = NaN"
| "fl_mult _ NaN = NaN"
| "fl_mult a b = inf_of_sign (fl_sgn a * fl_sgn b)"

fun fl_div :: "fl \<Rightarrow> fl \<Rightarrow> fl" where
  "fl_div (Fin x) (Fin y) = (if y = 0 then inf_of_sign (fl_sgn (Fin x)) else Fin (x / y))"
| "fl_div NaN _ = NaN"
| "fl_div _ NaN = NaN"
| "fl_div (Fin x) _ = Fin 0"
| "fl_div a (Fin y) = inf_of_sign (fl_sgn a * (if y < 0 then - 1 else 1))"
| "fl_div _ _ = NaN"

fun fl_abs :: "fl \<Rightarrow> fl" where
  "fl_abs (Fin x) = Fin \<bar>x\<bar>"
| "fl_abs NaN = NaN"
| "fl_abs _ = PInf"

text \<open>Comparisons: every comparison with NaN is false.\<close>

fun fl_le :: "fl \<Rightarrow> fl \<Rightarrow> bool" where
  "fl_le (Fin x) (Fin y) = (x \<le> y)"
| "fl_le NaN _ = False"
| "fl_le _ NaN = False"
| "fl_le NInf _ = True"
| "fl_le _ PInf = True"
| "fl_le _ _ = False"

fun fl_lt :: "fl \<Rightarrow> fl \<Rightarrow> bool" where
  "fl_lt (Fin x) (Fin y) = (x < y)"
| "fl_lt NaN _ = False"
| "fl_lt _ NaN = False"
| "fl_lt PInf _ = False"
| "fl_lt _ NInf = False"
| "fl_lt _ _ = True"

definition fl_ge :: "fl \<Rightarrow> fl \<Rightarrow> bool" where
  "fl_ge a b = fl_le b a"

definition fl_gt :: "fl \<Rightarrow> fl \<Rightarrow> bool" where
  "fl_gt a b = fl_lt b a"

text \<open>\<open>np.log10\<close>: minus infinity at zero, NaN below it.\<close>

fun np_log10 :: "fl \<Rightarrow> fl" where
  "np_log10 (Fin x) = (if 0 < x then Fin (log 10 x) else if x = 0 then NInf else NaN)"
| "np_log10 PInf = PInf"
| "np_log10 _ = NaN"

text \<open>\<open>10 ** x\<close> on a numpy value.\<close>

fun pow10 :: "fl \<Rightarrow> fl" where
  "pow10 (Fin x) = Fin (10 powr x)"
| "pow10 PInf = PInf"
| "pow10 NInf = Fin 0"
| "pow10 NaN = NaN"

text \<open>\<open>np.sum\<close> of floating point values: \<open>0.0\<close> for no value at all.\<close>

definition np_sum :: "fl list \<Rightarrow> fl" where
  "np_sum xs = foldl fl_add (Fin 0) xs"

text \<open>The mean of a column of finite values: NaN for an empty column.\<close>

definition np_mean :: "real list \<Rightarrow> fl" where
  "np_mean xs = (if xs = [] then NaN else Fin (sum_list xs / of_nat (length xs)))"

text \<open>\<open>np.round\<close> rounds to the nearest integer, and a half to the even neighbour.\<close>

definition np_round :: "real \<Rightarrow> int" where
  "np_round x =
     (let f = \<lfloor>x\<rfloor>; d = x - of_int f
      in if d < 1 / 2 then f else if 1 / 2 < d then f + 1 else if even f then f else f + 1)"

text \<open>\<open>np.arange(start, stop, step)\<close> for a step that is not zero: the values
  \<open>start + i * step\<close> for \<open>i\<close> below the ceiling of \<open>(stop - start) / step\<close>.\<close>

definition np_arange :: "real \<Rightarrow> real \<Rightarrow> real \<Rightarrow> real list" where
  "np_arange start stop step =
     map (\<lambda>i. start + of_nat i * step) [0..<nat \<lceil>(stop - start) / step\<rceil>]"

subsection \<open>The pandas operations the class uses\<close>

text \<open>A series is the list of its (label, value) pairs, in the order of the index.
  \<open>groupby("Magnitude")\<close> has the distinct magnitudes in increasing order as its index.\<close>

definition groupby_Magnitude_index :: "event list \<Rightarrow> real list" where
  "groupby_Magnitude_index df = sort (remdups (map Magnitude df))"

text \<open>\<open>groupby("Magnitude").count()["DateTime"]\<close>: for each distinct magnitude the
  number of rows of that magnitude whose \<open>DateTime\<close> cell is present.\<close>

definition groupby_Magnitude_count_DateTime :: "event list \<Rightarrow> (real \<times> nat) list" where
  "groupby_Magnitude_count_DateTime df =
     map (\<lambda>k. (k, length (filter (\<lambda>e. Magnitude e = k \<and> DateTime e \<noteq> None) df)))
       (groupby_Magnitude_index df)"

fun cumsum_from :: "nat \<Rightarrow> (real \<times> nat) list \<Rightarrow> (real \<times> nat) list" where
  "cumsum_from acc [] = []"
| "cumsum_from acc ((k, v) # s) = (k, acc + v) # cumsum_from (acc + v) s"

definition cumsum :: "(real \<times> nat) list \<Rightarrow> (real \<times> nat) list" where
  "cumsum s = cumsum_from 0 s"

text \<open>\<open>diff()\<close>: each value minus the one before it; the first entry has no
  predecessor and is NaN.\<close>

fun diff_from :: "nat \<Rightarrow> (real \<times> nat) list \<Rightarrow> (real \<times> fl) list" where
  "diff_from prev [] = []"
| "diff_from prev ((k, v) # s) = (k, Fin (real v - real prev)) # diff_from v s"

fun diff :: "(real \<times> nat) list \<Rightarrow> (real \<times> fl) list" where
  "diff [] = []"
| "diff ((k, v) # s) = (k, NaN) # diff_from v s"

text \<open>The entry that \<open>idxmax\<close> picks: NaN values are skipped, and of several maximal
  values the first one wins. \<open>None\<close> when every value is NaN.\<close>

fun nanargmax :: "(real \<times> fl) list \<Rightarrow> (real \<times> fl) option" where
  "nanargmax [] = None"
| "nanargmax ((k, v) # s) =
     (case nanargmax s of
        None \<Rightarrow> (if v = NaN then None else Some (k, v))
      | Some (k', v') \<Rightarrow>
          (if v = NaN then Some (k', v') else if fl_lt v v' then Some (k', v') else Some (k, v)))"

text \<open>\<open>idxmax()\<close> returns the label of that entry: it raises ValueError on an empty
  series and returns NaN when every value is NaN.\<close>

definition idxmax :: "(real \<times> fl) list \<Rightarrow> exn + fl" where
  "idxmax s =
     (if s = [] then Inl ''ValueError''
      else case nanargmax s of None \<Rightarrow> Inr NaN | Some (k, v) \<Rightarrow> Inr (Fin k))"

definition astype_float :: "(real \<times> nat) list \<Rightarrow> (real \<times> fl) list" where
  "astype_float s = map (\<lambda>(k, v). (k, Fin (real v))) s"


section \<open>The class \<open>Catalog\<close>\<close>

subsection \<open>The constructor\<close>

text \<open>
  \<open>__init__\<close> rounds every magnitude to a multiple of the bin width, builds the grid
  of bin centres from the least to the greatest rounded magnitude, and counts for each
  bin centre the events above its lower edge.

  With a bin width of zero every quotient is infinite or NaN and every rounded magnitude
  is NaN; \<open>groupby\<close> drops NaN keys, so that its index is empty just as for an empty
  catalog, and \<open>index[0]\<close> raises IndexError.
\<close>

definition round_Magnitude :: "real \<Rightarrow> event \<Rightarrow> event" where
  "round_Magnitude delta e =
     e\<lparr>Magnitude := of_int (np_round (Magnitude e / delta)) * delta\<rparr>"

definition Catalog_init :: "string \<Rightarrow> event list \<Rightarrow> real \<Rightarrow> exn + Catalog" where
  "Catalog_init path df delta =
     (if delta = 0 then Inl ''IndexError''
      else
        let rounded = map (round_Magnitude delta) df;
            index = groupby_Magnitude_index rounded
        in if index = [] then Inl ''IndexError''
           else
             let grid = np_arange (index ! 0) (last index + delta) delta
             in Inr \<lparr>path_to_figures = path,
                     catalog = rounded,
                     delta_magnitude = delta,
                     magnitudes_in_catalog = grid,
                     cumulative_magnitude_frequency =
                       map (\<lambda>magnitude.
                              length (filter (\<lambda>e. magnitude - delta / 2 < Magnitude e) rounded))
                         grid\<rparr>)"

subsection \<open>Maximum curvature\<close>

definition most_common_magnitude :: "Catalog \<Rightarrow> exn + fl" where
  "most_common_magnitude self =
     idxmax (astype_float (groupby_Magnitude_count_DateTime (catalog self)))"

definition distribution_derivative :: "Catalog \<Rightarrow> (real \<times> fl) list" where
  "distribution_derivative self =
     diff (cumsum (groupby_Magnitude_count_DateTime (catalog self)))"

text \<open>The method returns the label at which the derivative is greatest; the most common
  magnitude is computed first and only printed.\<close>

definition maximum_curvature :: "Catalog \<Rightarrow> exn + fl" where
  "maximum_curvature self =
     (case most_common_magnitude self of
        Inl e \<Rightarrow> Inl e
      | Inr _ \<Rightarrow>
          (case idxmax (distribution_derivative self) of
             Inl e \<Rightarrow> Inl e
           | Inr inflection_magnitude \<Rightarrow> Inr inflection_magnitude))"

subsection \<open>Goodness of fit\<close>

text \<open>The fifteen cutoffs around the maximum curvature estimate.\<close>

definition tested_magnitudes :: "fl \<Rightarrow> fl list" where
  "tested_magnitudes max_curvature_estimation =
     map (\<lambda>i. fl_add (fl_sub max_curvature_estimation (Fin (4 / 10)))
                 (Fin ((real i - 1) / 10)))
       [0..<15]"

text \<open>One pass of the loop body, for the cutoff \<open>tested_magnitudes[i]\<close>. Each local
  variable of the pass is a function of the object and the cutoff. First the events above
  the lower edge of the cutoff's bin.\<close>

definition lower_edge :: "Catalog \<Rightarrow> fl \<Rightarrow> fl" where
  "lower_edge self tested_magnitude =
     fl_sub tested_magnitude (Fin (delta_magnitude self / 2))"

definition catalog_above_tested_magnitude :: "Catalog \<Rightarrow> fl \<Rightarrow> event list" where
  "catalog_above_tested_magnitude self tested_magnitude =
     filter (\<lambda>e. fl_gt (Fin (Magnitude e)) (lower_edge self tested_magnitude)) (catalog self)"

text \<open>The b value of Aki and Utsu, and the a value.\<close>

definition b_value_gr :: "Catalog \<Rightarrow> fl \<Rightarrow> fl" where
  "b_value_gr self tested_magnitude =
     fl_div (np_log10 (Fin (exp 1)))
       (fl_sub (np_mean (map Magnitude (catalog_above_tested_magnitude self tested_magnitude)))
          (lower_edge self tested_magnitude))"

definition a_value_gr :: "Catalog \<Rightarrow> fl \<Rightarrow> fl" where
  "a_value_gr self tested_magnitude =
     fl_add
       (np_log10 (Fin (real (length (catalog_above_tested_magnitude self tested_magnitude)))))
       (fl_mult (b_value_gr self tested_magnitude) tested_magnitude)"

text \<open>The modelled cumulative distribution over the whole grid, and the grid indices at
  or above the cutoff.\<close>

definition frequency_magnitude_cumulative_model :: "Catalog \<Rightarrow> fl \<Rightarrow> fl list" where
  "frequency_magnitude_cumulative_model self tested_magnitude =
     map (\<lambda>g. pow10 (fl_sub (a_value_gr self tested_magnitude)
                        (fl_mult (b_value_gr self tested_magnitude) (Fin g))))
       (magnitudes_in_catalog self)"

definition index_of_magnitude_above_tested :: "Catalog \<Rightarrow> fl \<Rightarrow> nat list" where
  "index_of_magnitude_above_tested self tested_magnitude =
     filter (\<lambda>j. fl_ge (Fin (magnitudes_in_catalog self ! j)) tested_magnitude)
       [0..<length (magnitudes_in_catalog self)]"

text \<open>The residual, in percent, of the model against the observed cumulative
  frequencies at those indices. Reading the cumulative frequencies at a grid index they
  do not have raises IndexError.\<close>

definition residual :: "Catalog \<Rightarrow> fl \<Rightarrow> exn + fl" where
  "residual self tested_magnitude =
     (if list_ex (\<lambda>j. length (cumulative_magnitude_frequency self) \<le> j)
           (index_of_magnitude_above_tested self tested_magnitude)
      then Inl ''IndexError''
      else
        let cumulative_frequency_above_magnitude =
              map (\<lambda>j. cumulative_magnitude_frequency self ! j)
                (index_of_magnitude_above_tested self tested_magnitude);
            cumulative_frequency_above_magnitude_model =
              map (\<lambda>j. frequency_magnitude_cumulative_model self tested_magnitude ! j)
                (index_of_magnitude_above_tested self tested_magnitude)
        in Inr (fl_mult
                  (fl_div
                     (np_sum (map (\<lambda>(obs, mdl). fl_abs (fl_sub (Fin (real obs)) mdl))
                                (zip cumulative_frequency_above_magnitude
                                   cumulative_frequency_above_magnitude_model)))
                     (Fin (real (sum_list cumulative_frequency_above_magnitude))))
                  (Fin 100)))"

text \<open>The loop over the cutoffs; an exception in one pass ends the loop.\<close>

fun residuals_loop :: "Catalog \<Rightarrow> fl list \<Rightarrow> exn + fl list" where
  "residuals_loop self [] = Inr []"
| "residuals_loop self (m # ms) =
     (case residual self m of
        Inl e \<Rightarrow> Inl e
      | Inr r \<Rightarrow>
          (case residuals_loop self ms of
             Inl e \<Rightarrow> Inl e
           | Inr rs \<Rightarrow> Inr (r # rs)))"

text \<open>\<open>np.where(residuals <= threshold)[0]\<close>: the indices, in increasing order, at
  which the comparison is true.\<close>

definition np_where_le :: "fl list \<Rightarrow> fl \<Rightarrow> nat list" where
  "np_where_le xs threshold = filter (\<lambda>i. fl_le (xs ! i) threshold) [0..<length xs]"

definition goodness_of_fit_test :: "Catalog \<Rightarrow> exn + fl" where
  "goodness_of_fit_test self =
     (case maximum_curvature self of
        Inl e \<Rightarrow> Inl e
      | Inr max_curvature_estimation \<Rightarrow>
          (let tested = tested_magnitudes max_curvature_estimation
           in case residuals_loop self tested of
                Inl e \<Rightarrow> Inl e
              | Inr residuals \<Rightarrow>
                  (let index_of_first_low_residual = np_where_le residuals (Fin 5)
                   in if length index_of_first_low_residual \<noteq> 0
                      then Inr (tested ! (index_of_first_low_residual ! 0))
                      else
                        let index_of_first_low_residual = np_where_le residuals (Fin 10)
                        in if length index_of_first_low_residual \<noteq> 0
                           then Inr (tested ! (index_of_first_low_residual ! 0))
                           else Inr max_curvature_estimation)))"


subsection \<open>Example catalogs\<close>

definition row :: "real \<Rightarrow> event" where
  "row m = \<lparr>DateTime = Some 0, Magnitude = m\<rparr>"

text \<open>Two events of magnitude 1 and one of magnitude 2, with a bin width of 1: the
  lowest bin holds the greatest count.\<close>

definition two_bin_frame :: "event list" where
  "two_bin_frame = [row 1, row 1, row 2]"

definition two_bin_catalog :: Catalog where
  "two_bin_catalog =
     \<lparr>path_to_figures = ''figures'', catalog = [row 1, row 1, row 2], delta_magnitude = 1,
      magnitudes_in_catalog = [1, 2], cumulative_magnitude_frequency = [3, 1]\<rparr>"

text \<open>Three events of magnitude 2, with a bin width of one half.\<close>

definition one_bin_frame :: "event list" where
  "one_bin_frame = [row 2, row 2, row 2]"

definition one_bin_catalog :: Catalog where
  "one_bin_catalog =
     \<lparr>path_to_figures = ''figures'', catalog = [row 2, row 2, row 2],
      delta_magnitude = 1 / 2,
      magnitudes_in_catalog = [2], cumulative_magnitude_frequency = [3]\<rparr>"

text \<open>The magnitudes 0.9, 1.25 and 1.75, with a bin width of one half: they are
  rounded to 1, 1 (the quotient 2.5 goes to the even neighbour) and 2.\<close>

definition rounding_frame :: "event list" where
  "rounding_frame = [row (9 / 10), row (5 / 4), row (7 / 4)]"

definition rounding_catalog :: Catalog where
  "rounding_catalog =
     \<lparr>path_to_figures = ''figures'', catalog = [row 1, row 1, row 2],
      delta_magnitude = 1 / 2,
      magnitudes_in_catalog = [1, 3 / 2, 2], cumulative_magnitude_frequency = [3, 1, 1]\<rparr>"

text \<open>One event of magnitude 2 and two of magnitude 4, with a bin width of 2.\<close>

definition sweep_frame :: "event list" where
  "sweep_frame = [row 2, row 4, row 4]"

definition sweep_catalog :: Catalog where
  "sweep_catalog =
     \<lparr>path_to_figures = ''figures'', catalog = [row 2, row 4, row 4], delta_magnitude = 2,
      magnitudes_in_catalog = [2, 4], cumulative_magnitude_frequency = [3, 2]\<rparr>"

text \<open>The residuals of the fifteen cutoffs for that catalog: the cutoffs up to 4 have
  the grid value 4 above them, the later ones have none.\<close>

definition sweep_residuals :: "fl list" where
  "sweep_residuals =
     map (\<lambda>i. if i \<le> 5 then Fin (100 * (1 - exp (- ((5 - real i) / (15 - real i)))))
              else NaN)
       [0..<15]"

section \<open>Properties of the series operations\<close>

lemma set_groupby_Magnitude_index [simp]:
  "set (groupby_Magnitude_index df) = Magnitude ` set df"
  by (simp add: groupby_Magnitude_index_def)

lemma sorted_groupby_Magnitude_index [simp]: "sorted (groupby_Magnitude_index df)"
  by (simp add: groupby_Magnitude_index_def)

lemma distinct_groupby_Magnitude_index [simp]: "distinct (groupby_Magnitude_index df)"
  by (simp add: groupby_Magnitude_index_def)

lemma groupby_Magnitude_index_Nil [simp]: "groupby_Magnitude_index df = [] \<longleftrightarrow> df = []"
  using set_empty [of "groupby_Magnitude_index df"]
  unfolding set_groupby_Magnitude_index by simp

lemma map_fst_count_DateTime [simp]:
  "map fst (groupby_Magnitude_count_DateTime df) = groupby_Magnitude_index df"
  by (simp add: groupby_Magnitude_count_DateTime_def comp_def)

lemma count_DateTime_Nil [simp]: "groupby_Magnitude_count_DateTime df = [] \<longleftrightarrow> df = []"
  by (simp add: groupby_Magnitude_count_DateTime_def)

lemma astype_float_Nil [simp]: "astype_float s = [] \<longleftrightarrow> s = []"
  by (simp add: astype_float_def)

text \<open>Differencing undoes the running sum, at every entry that has a predecessor.\<close>

lemma diff_from_cumsum_from: "diff_from acc (cumsum_from acc s) = astype_float s"
  by (induction s arbitrary: acc) (auto simp: astype_float_def)

lemma diff_cumsum_Cons: "diff (cumsum ((k, v) # s)) = (k, NaN) # astype_float s"
  by (simp add: cumsum_def diff_from_cumsum_from)

text \<open>A series of counts has no NaN, so that \<open>idxmax\<close> returns one of its labels.\<close>

lemma nanargmax_astype_float:
  "s \<noteq> [] \<Longrightarrow> \<exists>k v. nanargmax (astype_float s) = Some (k, Fin v) \<and> k \<in> fst ` set s"
proof (induction s)
  case Nil
  then show ?case by simp
next
  case (Cons a s)
  obtain k n where a: "a = (k, n)" by (cases a)
  show ?case
  proof (cases "s = []")
    case True
    then show ?thesis by (simp add: a astype_float_def)
  next
    case False
    with Cons.IH obtain k' v' where
      "nanargmax (astype_float s) = Some (k', Fin v')" "k' \<in> fst ` set s"
      by blast
    then show ?thesis
      using a by (auto simp: astype_float_def)
  qed
qed

lemma idxmax_astype_float:
  "s \<noteq> [] \<Longrightarrow> \<exists>k. idxmax (astype_float s) = Inr (Fin k) \<and> k \<in> fst ` set s"
proof -
  assume "s \<noteq> []"
  then obtain k v where "nanargmax (astype_float s) = Some (k, Fin v)" "k \<in> fst ` set s"
    using nanargmax_astype_float [of s] by blast
  with \<open>s \<noteq> []\<close> show ?thesis by (simp add: idxmax_def)
qed

lemma idxmax_NaN_Cons:
  "idxmax ((k, NaN) # astype_float s) = (if s = [] then Inr NaN else idxmax (astype_float s))"
proof (cases "s = []")
  case True
  then show ?thesis by (simp add: idxmax_def astype_float_def)
next
  case False
  then show ?thesis by (simp add: idxmax_def split: option.splits)
qed

lemma sorted_distinct_hd_less:
  "sorted (x # xs) \<Longrightarrow> distinct (x # xs) \<Longrightarrow> y \<in> set xs \<Longrightarrow> x < (y::real)"
  by (auto simp: less_le)

section \<open>Maximum curvature\<close>

text \<open>What the method returns, in terms of the counts per distinct magnitude: the
  first bin never competes.\<close>

lemma maximum_curvature_eq:
  "maximum_curvature self =
     (case groupby_Magnitude_count_DateTime (catalog self) of
        [] \<Rightarrow> Inl ''ValueError''
      | kv # s \<Rightarrow> if s = [] then Inr NaN else idxmax (astype_float s))"
proof (cases "groupby_Magnitude_count_DateTime (catalog self)")
  case Nil
  then show ?thesis
    by (simp add: maximum_curvature_def most_common_magnitude_def idxmax_def astype_float_def
        del: count_DateTime_Nil)
next
  case (Cons kv s)
  obtain k v where kv: "kv = (k, v)" by (cases kv)
  from idxmax_astype_float [of "kv # s"] obtain m where
    "idxmax (astype_float (kv # s)) = Inr (Fin m)" by auto
  then show ?thesis
    using Cons kv
    by (simp add: maximum_curvature_def most_common_magnitude_def distribution_derivative_def
        diff_cumsum_Cons idxmax_NaN_Cons split: sum.splits)
qed

lemma maximum_curvature_above_lowest:
  assumes "2 \<le> card (Magnitude ` set (catalog self))"
  shows "\<exists>m. maximum_curvature self = Inr (Fin m) \<and> m \<in> Magnitude ` set (catalog self)
           \<and> Min (Magnitude ` set (catalog self)) < m"
proof -
  let ?idx = "groupby_Magnitude_index (catalog self)"
  let ?cnt = "groupby_Magnitude_count_DateTime (catalog self)"
  have len: "2 \<le> length ?idx"
    using assms distinct_card [of ?idx] by simp
  have "length ?cnt = length ?idx"
    by (simp add: groupby_Magnitude_count_DateTime_def)
  with len have len': "2 \<le> length ?cnt" by simp
  then obtain kv s where cnt: "?cnt = kv # s"
    by (cases ?cnt) auto
  with len' have s: "s \<noteq> []" by auto
  from idxmax_astype_float [OF s] obtain m where
    m: "idxmax (astype_float s) = Inr (Fin m)" "m \<in> fst ` set s" by blast
  have idx: "?idx = fst kv # map fst s"
    using cnt map_fst_count_DateTime [of "catalog self"] by simp
  have m_in: "m \<in> set (map fst s)" using m(2) by simp
  have lt: "fst kv < m"
    using sorted_distinct_hd_less [of "fst kv" "map fst s" m] m_in idx
      sorted_groupby_Magnitude_index [of "catalog self"]
      distinct_groupby_Magnitude_index [of "catalog self"] by simp
  have mem: "m \<in> Magnitude ` set (catalog self)"
    using m_in idx set_groupby_Magnitude_index [of "catalog self"] by auto
  have "Min (Magnitude ` set (catalog self)) \<le> fst kv"
  proof (rule Min_le)
    show "finite (Magnitude ` set (catalog self))" by simp
    show "fst kv \<in> Magnitude ` set (catalog self)"
      using idx set_groupby_Magnitude_index [of "catalog self"] by auto
  qed
  with lt mem m(1) cnt s show ?thesis
    by (auto simp: maximum_curvature_eq)
qed

subsection \<open>The example catalogs\<close>

lemma upt_0_2: "[0..<2] = [0, Suc 0]"
  by (simp add: eval_nat_numeral)

lemma np_round_of_int [simp]: "np_round (of_int k) = k"
  by (simp add: np_round_def)

lemma np_round_numeral [simp]: "np_round (numeral n) = numeral n"
  using np_round_of_int [of "numeral n"] by simp

lemma np_round_1 [simp]: "np_round 1 = 1"
  using np_round_of_int [of 1] by simp

lemma init_two_bin: "Catalog_init ''figures'' two_bin_frame 1 = Inr two_bin_catalog"
  by (simp add: Catalog_init_def two_bin_frame_def two_bin_catalog_def round_Magnitude_def
      row_def groupby_Magnitude_index_def np_arange_def Let_def upt_0_2)

lemma init_one_bin: "Catalog_init ''figures'' one_bin_frame (1 / 2) = Inr one_bin_catalog"
  by (simp add: Catalog_init_def one_bin_frame_def one_bin_catalog_def round_Magnitude_def
      row_def groupby_Magnitude_index_def np_arange_def Let_def)

lemma count_two_bin:
  "groupby_Magnitude_count_DateTime (catalog two_bin_catalog) = [(1, 2), (2, 1)]"
  by (simp add: two_bin_catalog_def groupby_Magnitude_count_DateTime_def
      groupby_Magnitude_index_def row_def)

lemma count_one_bin:
  "groupby_Magnitude_count_DateTime (catalog one_bin_catalog) = [(2, 3)]"
  by (simp add: one_bin_catalog_def groupby_Magnitude_count_DateTime_def
      groupby_Magnitude_index_def row_def)

lemma Magnitudes_two_bin: "Magnitude ` set (catalog two_bin_catalog) = {1, 2}"
  by (auto simp: two_bin_catalog_def row_def)



text \<open>
  Claim C3. The claim: for a catalog whose events all have one rounded magnitude,
  \<open>maximum_curvature\<close> returns that magnitude. The code returns NaN: for three events
  of magnitude 2 the derivative has the single value NaN, which \<open>idxmax\<close> skips.
\<close>

theorem maximum_curvature_single_magnitude_is_NaN:
  "Catalog_init ''figures'' one_bin_frame (1 / 2) = Inr one_bin_catalog \<and>
   Magnitude ` set (catalog one_bin_catalog) = {2} \<and>
   most_common_magnitude one_bin_catalog = Inr (Fin 2) \<and>
   maximum_curvature one_bin_catalog = Inr NaN"
proof -
  have "Magnitude ` set (catalog one_bin_catalog) = {2}"
    by (simp add: one_bin_catalog_def row_def)
  moreover have "most_common_magnitude one_bin_catalog = Inr (Fin 2)"
    by (simp add: most_common_magnitude_def count_one_bin astype_float_def idxmax_def)
  moreover have "maximum_curvature one_bin_catalog = Inr NaN"
    by (simp add: maximum_curvature_eq count_one_bin)
  ultimately show ?thesis
    using init_one_bin by simp
qed

text \<open>
  Claim C4. The claim: constructing a Catalog from an empty catalog raises
  \<open>InvalidInputError\<close>. The code has no such exception: the construction fails, but
  with the IndexError of \<open>index[0]\<close> on the empty index of the grouping.
\<close>

theorem empty_catalog_not_InvalidInputError:
  "Catalog_init ''figures'' [] (1 / 10) \<noteq> Inl ''InvalidInputError''"
  by (simp add: Catalog_init_def groupby_Magnitude_index_def)

text \<open>
  Claim C4, amended. For every path and every bin width, constructing a Catalog from an
  empty catalog fails with IndexError: no object is returned and no grid is built.
\<close>

theorem empty_catalog_raises_IndexError:
  "Catalog_init path [] delta = Inl ''IndexError''"
  by (simp add: Catalog_init_def groupby_Magnitude_index_def)

text \<open>
  Claim C9. For every constructed catalog with at least two distinct rounded magnitudes,
  \<open>maximum_curvature\<close> returns a rounded magnitude of the catalog that is greater than
  the least one: the first entry of the derivative is NaN and \<open>idxmax\<close> skips it,
  whatever the count of the lowest bin.
\<close>

theorem maximum_curvature_never_lowest_bin:
  assumes "Catalog_init path df delta = Inr self"
    and "2 \<le> card (Magnitude ` set (catalog self))"
  shows "\<exists>m. maximum_curvature self = Inr (Fin m) \<and>
              m \<in> Magnitude ` set (catalog self) \<and>
              Min (Magnitude ` set (catalog self)) < m \<and>
              catalog self = map (round_Magnitude delta) df"
proof -
  have "catalog self = map (round_Magnitude delta) df"
    using assms(1) by (auto simp: Catalog_init_def Let_def split: if_splits)
  with maximum_curvature_above_lowest [OF assms(2)] show ?thesis by blast
qed

text \<open>The catalog with two events of magnitude 1 and one of magnitude 2: the lowest bin
  holds the greatest count, and the method returns 2.\<close>

theorem maximum_curvature_never_lowest_bin_witness:
  "Catalog_init ''figures'' two_bin_frame 1 = Inr two_bin_catalog \<and>
   2 \<le> card (Magnitude ` set (catalog two_bin_catalog)) \<and>
   most_common_magnitude two_bin_catalog = Inr (Fin 1) \<and>
   maximum_curvature two_bin_catalog = Inr (Fin 2)"
proof -
  have c: "2 \<le> card (Magnitude ` set (catalog two_bin_catalog))"
    by (simp add: Magnitudes_two_bin)
  have M: "Min (Magnitude ` set (catalog two_bin_catalog)) = 1"
    by (simp add: Magnitudes_two_bin)
  have "most_common_magnitude two_bin_catalog = Inr (Fin 1)"
    by (simp add: most_common_magnitude_def count_two_bin astype_float_def idxmax_def)
  with maximum_curvature_never_lowest_bin [OF init_two_bin c] c init_two_bin
  show ?thesis
    unfolding M Magnitudes_two_bin by auto
qed

section \<open>The constructor\<close>

lemma Magnitude_round_Magnitude [simp]:
  "Magnitude (round_Magnitude delta e) = of_int (np_round (Magnitude e / delta)) * delta"
  by (simp add: round_Magnitude_def)

lemma Catalog_init_InrD:
  assumes "Catalog_init path df delta = Inr self"
  shows "df \<noteq> []" and "delta \<noteq> 0"
    and "catalog self = map (round_Magnitude delta) df"
    and "delta_magnitude self = delta"
    and "magnitudes_in_catalog self =
           np_arange (hd (groupby_Magnitude_index (catalog self)))
             (last (groupby_Magnitude_index (catalog self)) + delta) delta"
    and "cumulative_magnitude_frequency self =
           map (\<lambda>g. length (filter (\<lambda>e. g - delta / 2 < Magnitude e) (catalog self)))
             (magnitudes_in_catalog self)"
proof -
  let ?r = "map (round_Magnitude delta) df"
  from assms have d: "delta \<noteq> 0"
    by (cases "delta = 0") (simp_all add: Catalog_init_def)
  from assms d have i: "groupby_Magnitude_index ?r \<noteq> []"
    by (cases "groupby_Magnitude_index ?r = []") (simp_all add: Catalog_init_def Let_def)
  then show "df \<noteq> []" by simp
  show "delta \<noteq> 0" by fact
  from assms d i have self: "self =
     \<lparr>path_to_figures = path, catalog = ?r, delta_magnitude = delta,
      magnitudes_in_catalog =
        np_arange (groupby_Magnitude_index ?r ! 0) (last (groupby_Magnitude_index ?r) + delta) delta,
      cumulative_magnitude_frequency =
        map (\<lambda>magnitude. length (filter (\<lambda>e. magnitude - delta / 2 < Magnitude e) ?r))
          (np_arange (groupby_Magnitude_index ?r ! 0) (last (groupby_Magnitude_index ?r) + delta) delta)\<rparr>"
    unfolding Catalog_init_def Let_def by simp
  show "catalog self = ?r" by (subst self) simp
  show "delta_magnitude self = delta" by (subst self) simp
  show "magnitudes_in_catalog self =
           np_arange (hd (groupby_Magnitude_index (catalog self)))
             (last (groupby_Magnitude_index (catalog self)) + delta) delta"
    using i by (subst (1 2 3) self) (simp add: hd_conv_nth)
  show "cumulative_magnitude_frequency self =
           map (\<lambda>g. length (filter (\<lambda>e. g - delta / 2 < Magnitude e) (catalog self)))
             (magnitudes_in_catalog self)"
    by (subst (1 2 3) self) simp
qed


lemma Catalog_init_succeeds:
  assumes "df \<noteq> []" "delta \<noteq> 0"
  shows "\<exists>self. Catalog_init path df delta = Inr self"
proof -
  have "groupby_Magnitude_index (map (round_Magnitude delta) df) \<noteq> []"
    using assms(1) by simp
  then show ?thesis
    using assms(2) unfolding Catalog_init_def Let_def by simp
qed

text \<open>The span of the rounded magnitudes is a whole number of bins.\<close>

lemma np_arange_span:
  assumes "0 < delta"
  shows "np_arange (of_int k * delta) (of_int k * delta + real n * delta + delta) delta
           = map (\<lambda>i. of_int k * delta + real i * delta) [0..<Suc n]"
proof -
  have "(of_int k * delta + real n * delta + delta - of_int k * delta) / delta
          = (real n + 1) * delta / delta"
    by (simp add: algebra_simps)
  also have "\<dots> = real (Suc n)" using assms by simp
  finally have "nat \<lceil>(of_int k * delta + real n * delta + delta - of_int k * delta) / delta\<rceil>
                  = Suc n"
    by (simp only: ceiling_of_nat nat_int)
  then show ?thesis
    unfolding np_arange_def by (simp only:)
qed

lemma sorted_hd_le_last:
  fixes xs :: "real list"
  assumes "sorted xs" "xs \<noteq> []"
  shows "hd xs \<le> last xs"
proof (cases xs)
  case Nil
  with assms(2) show ?thesis by simp
next
  case (Cons x ys)
  show ?thesis
  proof (cases "ys = []")
    case True
    with Cons show ?thesis by simp
  next
    case False
    then have "last ys \<in> set ys" by simp
    with assms(1) Cons False show ?thesis by simp
  qed
qed



lemma index_bounds:
  assumes "df \<noteq> []" "0 < delta"
  shows "\<exists>k n. hd (groupby_Magnitude_index (map (round_Magnitude delta) df)) = of_int k * delta \<and>
           last (groupby_Magnitude_index (map (round_Magnitude delta) df))
             = of_int k * delta + real n * delta"
proof -
  let ?idx = "groupby_Magnitude_index (map (round_Magnitude delta) df)"
  have ne: "?idx \<noteq> []" using assms(1) by simp
  have mem: "\<exists>k. x = of_int k * delta" if "x \<in> set ?idx" for x
  proof -
    from that obtain e where "e \<in> set df" "x = Magnitude (round_Magnitude delta e)"
      by (auto simp del: Magnitude_round_Magnitude)
    then show ?thesis by (simp only: Magnitude_round_Magnitude) blast
  qed
  from ne have h: "hd ?idx \<in> set ?idx" and l: "last ?idx \<in> set ?idx"
    by (rule hd_in_set, rule last_in_set)
  from mem [OF h] obtain k1 where k1: "hd ?idx = of_int k1 * delta" ..
  from mem [OF l] obtain k2 where k2: "last ?idx = of_int k2 * delta" ..
  have "hd ?idx \<le> last ?idx"
    using sorted_hd_le_last [OF sorted_groupby_Magnitude_index ne] .
  then have "of_int k1 * delta \<le> of_int k2 * delta"
    unfolding k1 k2 .
  then have "(of_int k1 :: real) \<le> of_int k2"
    using assms(2) by (rule mult_right_le_imp_le)
  then have "k1 \<le> k2" by (simp only: of_int_le_iff)
  then have "int (nat (k2 - k1)) = k2 - k1" by simp
  then have "real (nat (k2 - k1)) = of_int k2 - of_int k1"
    by (metis of_int_diff of_int_of_nat_eq)
  then have "last ?idx = of_int k1 * delta + real (nat (k2 - k1)) * delta"
    unfolding k2 by (simp add: left_diff_distrib)
  with k1 show ?thesis by blast
qed

text \<open>The grid of a constructed catalog, for a positive bin width.\<close>

lemma grid_of_init:
  assumes "Catalog_init path df delta = Inr self" "0 < delta"
  shows "\<exists>n. magnitudes_in_catalog self =
               map (\<lambda>i. hd (groupby_Magnitude_index (catalog self)) + real i * delta) [0..<Suc n]
             \<and> last (groupby_Magnitude_index (catalog self))
                 = hd (groupby_Magnitude_index (catalog self)) + real n * delta"
proof -
  note D = Catalog_init_InrD [OF assms(1)]
  from index_bounds [OF D(1) assms(2)] obtain k n where
    h: "hd (groupby_Magnitude_index (catalog self)) = of_int k * delta" and
    l: "last (groupby_Magnitude_index (catalog self)) = of_int k * delta + real n * delta"
    unfolding D(3) by blast
  have "magnitudes_in_catalog self =
          np_arange (of_int k * delta) (of_int k * delta + real n * delta + delta) delta"
    using D(5) unfolding h l .
  then have "magnitudes_in_catalog self =
          map (\<lambda>i. of_int k * delta + real i * delta) [0..<Suc n]"
    using np_arange_span [OF assms(2)] by simp
  with h l show ?thesis by auto
qed


lemma init_rounding: "Catalog_init ''figures'' rounding_frame (1 / 2) = Inr rounding_catalog"
  by code_simp

lemma length_filter_mono:
  "(\<And>x. P x \<Longrightarrow> Q x) \<Longrightarrow> length (filter P xs) \<le> length (filter Q xs)"
  by (induction xs) auto



lemma sorted_wrt_arith_progression:
  "0 < delta \<Longrightarrow> sorted_wrt (<) (map (\<lambda>i. h + real i * delta) [0..<n])"
  by (simp add: sorted_wrt_map sorted_wrt_iff_nth_less)



text \<open>
  Claim C7. For every non-empty catalog and every positive bin width the construction
  succeeds, the cumulative frequency of each grid value \<open>g\<close> is the number of events
  whose rounded magnitude is greater than \<open>g - delta / 2\<close>, and the sequence of
  cumulative frequencies never increases along the grid.
\<close>

theorem cumulative_frequency_non_increasing:
  assumes "df \<noteq> []" and "0 < delta"
  shows "\<exists>self. Catalog_init path df delta = Inr self \<and>
           cumulative_magnitude_frequency self =
             map (\<lambda>g. length (filter (\<lambda>e. g - delta / 2 < Magnitude e)
                                 (map (round_Magnitude delta) df)))
               (magnitudes_in_catalog self) \<and>
           sorted_wrt (\<lambda>a b. b \<le> a) (cumulative_magnitude_frequency self)"
proof -
  from assms have "delta \<noteq> 0" by simp
  from Catalog_init_succeeds [OF assms(1) this] obtain self where
    init: "Catalog_init path df delta = Inr self" by blast
  note D = Catalog_init_InrD [OF init]
  let ?count = "\<lambda>g. length (filter (\<lambda>e. g - delta / 2 < Magnitude e) (catalog self))"
  from grid_of_init [OF init assms(2)] obtain n where
    grid: "magnitudes_in_catalog self =
             map (\<lambda>i. hd (groupby_Magnitude_index (catalog self)) + real i * delta) [0..<Suc n]"
    by blast
  have inc: "sorted_wrt (<) (magnitudes_in_catalog self)"
    unfolding grid by (rule sorted_wrt_arith_progression [OF assms(2)])
  have anti: "?count b \<le> ?count a" if "a < b" for a b :: real
    using that by (intro length_filter_mono) simp
  have "sorted_wrt (\<lambda>a b. ?count b \<le> ?count a) (magnitudes_in_catalog self)"
    by (rule sorted_wrt_mono_rel [OF _ inc]) (use anti in blast)
  then have "sorted_wrt (\<lambda>a b. b \<le> a) (map ?count (magnitudes_in_catalog self))"
    by (simp only: sorted_wrt_map)
  then have "sorted_wrt (\<lambda>a b. b \<le> a) (cumulative_magnitude_frequency self)"
    by (simp only: D(6))
  moreover have "cumulative_magnitude_frequency self =
             map (\<lambda>g. length (filter (\<lambda>e. g - delta / 2 < Magnitude e)
                                 (map (round_Magnitude delta) df)))
               (magnitudes_in_catalog self)"
    using D(6) unfolding D(3) .
  ultimately show ?thesis using init by blast
qed

text \<open>For the magnitudes 0.9, 1.25 and 1.75 and a bin width of one half the cumulative
  frequencies are 3, 1 and 1.\<close>

theorem cumulative_frequency_non_increasing_witness:
  "rounding_frame \<noteq> [] \<and> (0::real) < 1 / 2 \<and>
   Catalog_init ''figures'' rounding_frame (1 / 2) = Inr rounding_catalog \<and>
   cumulative_magnitude_frequency rounding_catalog = [3, 1, 1] \<and>
   sorted_wrt (\<lambda>a b. b \<le> a) (cumulative_magnitude_frequency rounding_catalog)"
proof -
  have ne: "rounding_frame \<noteq> []" by (simp add: rounding_frame_def)
  have pos: "(0::real) < 1 / 2" by simp
  from cumulative_frequency_non_increasing [OF ne pos, of "''figures''"] obtain self where
    "Catalog_init ''figures'' rounding_frame (1 / 2) = Inr self"
    "sorted_wrt (\<lambda>a b. b \<le> a) (cumulative_magnitude_frequency self)"
    by blast
  moreover from this(1) have "self = rounding_catalog" by (simp add: init_rounding)
  moreover have "cumulative_magnitude_frequency rounding_catalog = [3, 1, 1]"
    by (simp add: rounding_catalog_def)
  ultimately show ?thesis using ne pos init_rounding by simp
qed



section \<open>Goodness of fit\<close>

lemma length_tested_magnitudes [simp]: "length (tested_magnitudes mc) = 15"
  by (simp add: tested_magnitudes_def)

lemma tested_magnitudes_nth:
  "i < 15 \<Longrightarrow> tested_magnitudes mc ! i
     = fl_add (fl_sub mc (Fin (4 / 10))) (Fin ((real i - 1) / 10))"
  unfolding tested_magnitudes_def by (simp only: nth_map_upt add_0 minus_nat.diff_0)

lemma tested_magnitudes_Fin:
  "i < 15 \<Longrightarrow> tested_magnitudes (Fin s) ! i = Fin (s - 1 / 2 + real i / 10)"
  by (simp add: tested_magnitudes_nth fl_sub_def field_simps)

lemma tested_magnitudes_NaN: "i < 15 \<Longrightarrow> tested_magnitudes NaN ! i = NaN"
  by (simp add: tested_magnitudes_nth fl_sub_def)

lemma index_of_magnitude_above_tested_bound:
  "j \<in> set (index_of_magnitude_above_tested self m) \<Longrightarrow> j < length (magnitudes_in_catalog self)"
  by (simp add: index_of_magnitude_above_tested_def)

lemma residual_Inr:
  assumes "length (magnitudes_in_catalog self) \<le> length (cumulative_magnitude_frequency self)"
  shows "residual self m =
     Inr (fl_mult
            (fl_div
               (np_sum (map (\<lambda>j. fl_abs (fl_sub (Fin (real (cumulative_magnitude_frequency self ! j)))
                                       (pow10 (fl_sub (a_value_gr self m)
                                          (fl_mult (b_value_gr self m)
                                             (Fin (magnitudes_in_catalog self ! j)))))))
                          (index_of_magnitude_above_tested self m)))
               (Fin (real (sum_list (map (\<lambda>j. cumulative_magnitude_frequency self ! j)
                                       (index_of_magnitude_above_tested self m))))))
            (Fin 100))"
proof -
  have no: "\<not> list_ex (\<lambda>j. length (cumulative_magnitude_frequency self) \<le> j)
               (index_of_magnitude_above_tested self m)"
    using assms index_of_magnitude_above_tested_bound [of _ self m]
    by (fastforce simp: list_ex_iff)
  have terms: "map (\<lambda>(obs, mdl). fl_abs (fl_sub (Fin (real obs)) mdl))
            (zip (map (\<lambda>j. cumulative_magnitude_frequency self ! j)
                    (index_of_magnitude_above_tested self m))
               (map (\<lambda>j. frequency_magnitude_cumulative_model self m ! j)
                    (index_of_magnitude_above_tested self m)))
        = map (\<lambda>j. fl_abs (fl_sub (Fin (real (cumulative_magnitude_frequency self ! j)))
                                       (pow10 (fl_sub (a_value_gr self m)
                                          (fl_mult (b_value_gr self m)
                                             (Fin (magnitudes_in_catalog self ! j)))))))
                          (index_of_magnitude_above_tested self m)"
    using index_of_magnitude_above_tested_bound [of _ self m]
    by (simp add: zip_map_map frequency_magnitude_cumulative_model_def map_eq_conv
        zip_same_conv_map)
  show ?thesis
    unfolding residual_def Let_def terms using no by simp
qed

lemma residuals_loop_Inr:
  assumes "length (magnitudes_in_catalog self) \<le> length (cumulative_magnitude_frequency self)"
  shows "\<exists>rs. residuals_loop self ms = Inr rs \<and> length rs = length ms \<and>
           (\<forall>i<length ms. residual self (ms ! i) = Inr (rs ! i))"
proof (induction ms)
  case Nil
  show ?case by simp
next
  case (Cons m ms)
  from residual_Inr [OF assms, of m] obtain r where r: "residual self m = Inr r" by blast
  from Cons obtain rs where rs: "residuals_loop self ms = Inr rs" "length rs = length ms"
    "\<forall>i<length ms. residual self (ms ! i) = Inr (rs ! i)" by blast
  have "\<forall>i<length (m # ms). residual self ((m # ms) ! i) = Inr ((r # rs) ! i)"
    using r rs(3) by (auto simp: nth_Cons split: nat.splits)
  then show ?case using r rs by simp
qed

lemma maximum_curvature_Inr:
  assumes "catalog self \<noteq> []"
  shows "\<exists>mc. maximum_curvature self = Inr mc \<and> (mc = NaN \<or> (\<exists>s. mc = Fin s))"
proof (cases "groupby_Magnitude_count_DateTime (catalog self)")
  case Nil
  with assms show ?thesis by simp
next
  case (Cons kv s)
  show ?thesis
  proof (cases "s = []")
    case True
    with Cons show ?thesis by (simp add: maximum_curvature_eq)
  next
    case False
    from idxmax_astype_float [OF False] obtain m where "idxmax (astype_float s) = Inr (Fin m)"
      by blast
    with Cons False show ?thesis by (simp add: maximum_curvature_eq)
  qed
qed

text \<open>The first index that \<open>np.where\<close> finds is the least index at which the
  comparison holds.\<close>

lemma np_where_le_Nil_iff:
  "np_where_le xs t = [] \<longleftrightarrow> \<not> (\<exists>i<length xs. fl_le (xs ! i) t)"
  by (auto simp: np_where_le_def filter_empty_conv)

lemma np_where_le_first:
  assumes "np_where_le xs t \<noteq> []"
  shows "np_where_le xs t ! 0 = (LEAST i. i < length xs \<and> fl_le (xs ! i) t)"
proof -
  let ?w = "np_where_le xs t"
  have sorted: "sorted ?w" unfolding np_where_le_def by (rule sorted_wrt_filter) simp
  have "?w ! 0 \<in> set ?w" using assms by simp
  then have first: "?w ! 0 < length xs \<and> fl_le (xs ! (?w ! 0)) t"
    by (simp add: np_where_le_def)
  have "?w ! 0 \<le> j" if "j < length xs \<and> fl_le (xs ! j) t" for j
  proof -
    from that have "j \<in> set ?w" by (simp add: np_where_le_def)
    then obtain k where "k < length ?w" "?w ! k = j" by (auto simp: in_set_conv_nth)
    with sorted show ?thesis by (metis le0 sorted_nth_mono)
  qed
  with first show ?thesis by (intro Least_equality [symmetric]) blast+
qed

lemma fl_le_5_10: "fl_le x (Fin 5) \<Longrightarrow> fl_le x (Fin 10)"
  by (cases x) simp_all

lemma fl_le_NaN [simp]: "\<not> fl_le NaN t"
  by simp

text \<open>
  Claim C1. For every constructed catalog, \<open>goodness_of_fit_test\<close> computes the
  maximum curvature estimate and the fifteen residuals without an exception, and returns
  the cutoff of the least index whose residual is at most 5; if there is none, the cutoff
  of the least index whose residual is at most 10; and if there is none either, the
  maximum curvature estimate itself. The cutoffs increase strictly with the index when
  the estimate is a number, so that the least index is also the least magnitude.
\<close>

theorem goodness_of_fit_selection:
  assumes "Catalog_init path df delta = Inr self"
  shows "\<exists>mc rs. maximum_curvature self = Inr mc \<and>
           residuals_loop self (tested_magnitudes mc) = Inr rs \<and> length rs = 15 \<and>
           (\<forall>i<15. residual self (tested_magnitudes mc ! i) = Inr (rs ! i)) \<and>
           goodness_of_fit_test self =
             Inr (if \<exists>i<15. fl_le (rs ! i) (Fin 5)
                  then tested_magnitudes mc ! (LEAST i. i < 15 \<and> fl_le (rs ! i) (Fin 5))
                  else if \<exists>i<15. fl_le (rs ! i) (Fin 10)
                  then tested_magnitudes mc ! (LEAST i. i < 15 \<and> fl_le (rs ! i) (Fin 10))
                  else mc) \<and>
           (\<forall>i j. i < j \<longrightarrow> j < 15 \<longrightarrow> mc \<noteq> NaN \<longrightarrow>
              fl_lt (tested_magnitudes mc ! i) (tested_magnitudes mc ! j))"
proof -
  note D = Catalog_init_InrD [OF assms]
  have "catalog self \<noteq> []" using D(1) D(3) by simp
  from maximum_curvature_Inr [OF this] obtain mc where
    mc: "maximum_curvature self = Inr mc" and fin: "mc = NaN \<or> (\<exists>s. mc = Fin s)" by blast
  have len: "length (magnitudes_in_catalog self) \<le> length (cumulative_magnitude_frequency self)"
    by (subst D(6)) simp
  from residuals_loop_Inr [OF len, of "tested_magnitudes mc"] obtain rs where
    rs: "residuals_loop self (tested_magnitudes mc) = Inr rs" "length rs = 15"
      "\<forall>i<15. residual self (tested_magnitudes mc ! i) = Inr (rs ! i)"
    by auto
  have inc: "fl_lt (tested_magnitudes mc ! i) (tested_magnitudes mc ! j)"
    if "i < j" "j < 15" "mc \<noteq> NaN" for i j
  proof -
    from fin that(3) obtain s where "mc = Fin s" by blast
    with that(1,2) show ?thesis by (simp add: tested_magnitudes_Fin)
  qed
  have gof: "goodness_of_fit_test self =
             Inr (if \<exists>i<15. fl_le (rs ! i) (Fin 5)
                  then tested_magnitudes mc ! (LEAST i. i < 15 \<and> fl_le (rs ! i) (Fin 5))
                  else if \<exists>i<15. fl_le (rs ! i) (Fin 10)
                  then tested_magnitudes mc ! (LEAST i. i < 15 \<and> fl_le (rs ! i) (Fin 10))
                  else mc)"
  proof -
    let ?w5 = "np_where_le rs (Fin 5)" and ?w10 = "np_where_le rs (Fin 10)"
    define P5 where "P5 \<longleftrightarrow> (\<exists>i<15. fl_le (rs ! i) (Fin 5))"
    define P10 where "P10 \<longleftrightarrow> (\<exists>i<15. fl_le (rs ! i) (Fin 10))"
    define L5 where "L5 = (LEAST i. i < 15 \<and> fl_le (rs ! i) (Fin 5))"
    define L10 where "L10 = (LEAST i. i < 15 \<and> fl_le (rs ! i) (Fin 10))"
    have unfold: "goodness_of_fit_test self =
        (if ?w5 \<noteq> [] then Inr (tested_magnitudes mc ! (?w5 ! 0))
         else if ?w10 \<noteq> [] then Inr (tested_magnitudes mc ! (?w10 ! 0))
         else Inr mc)"
      by (simp add: goodness_of_fit_test_def Let_def mc rs(1))
    have e5: "?w5 \<noteq> [] \<longleftrightarrow> P5"
      unfolding P5_def using np_where_le_Nil_iff [of rs "Fin 5"] rs(2) by simp
    have e10: "?w10 \<noteq> [] \<longleftrightarrow> P10"
      unfolding P10_def using np_where_le_Nil_iff [of rs "Fin 10"] rs(2) by simp
    have f5: "?w5 ! 0 = L5" if "?w5 \<noteq> []"
      unfolding L5_def using np_where_le_first [OF that] rs(2) by simp
    have f10: "?w10 ! 0 = L10" if "?w10 \<noteq> []"
      unfolding L10_def using np_where_le_first [OF that] rs(2) by simp
    have "goodness_of_fit_test self =
             Inr (if P5 then tested_magnitudes mc ! L5
                  else if P10 then tested_magnitudes mc ! L10 else mc)"
    proof (cases "?w5 \<noteq> []")
      case True
      with f5 [OF True] show ?thesis by (simp add: unfold e5 [symmetric])
    next
      case w5: False
      show ?thesis
      proof (cases "?w10 \<noteq> []")
        case True
        with w5 f10 [OF True] show ?thesis
          by (simp add: unfold e5 [symmetric] e10 [symmetric])
      next
        case False
        with w5 show ?thesis by (simp add: unfold e5 [symmetric] e10 [symmetric])
      qed
    qed
    then show ?thesis unfolding P5_def P10_def L5_def L10_def .
  qed
  from mc rs gof inc show ?thesis by blast
qed

lemma init_sweep: "Catalog_init ''figures'' sweep_frame 2 = Inr sweep_catalog"
  by code_simp

lemma count_sweep:
  "groupby_Magnitude_count_DateTime (catalog sweep_catalog) = [(2, 1), (4, 2)]"
  by (simp add: sweep_catalog_def groupby_Magnitude_count_DateTime_def
      groupby_Magnitude_index_def row_def)

lemma maximum_curvature_sweep: "maximum_curvature sweep_catalog = Inr (Fin 4)"
  by (simp add: maximum_curvature_eq count_sweep astype_float_def idxmax_def)

text \<open>The model of Gutenberg and Richter, in terms of the exponential function.\<close>

lemma pow10_log10_exp: "10 powr (log 10 (exp 1) * x) = exp x"
proof -
  have "log 10 (exp 1) * ln 10 = 1"
    by (simp add: log_def)
  then have "log 10 (exp 1) * x * ln 10 = x"
    by (metis mult.commute mult.left_commute mult.right_neutral)
  then show ?thesis by (simp add: powr_def)
qed

lemma gutenberg_richter_model:
  assumes "0 < n"
  shows "10 powr (log 10 n + log 10 (exp 1) / d * c - log 10 (exp 1) / d * g)
           = n * exp ((c - g) / d)"
proof -
  define k :: real where "k = log 10 (exp 1)"
  have k: "10 powr (k * x) = exp x" for x
    unfolding k_def by (rule pow10_log10_exp)
  have "log 10 n + k / d * c - k / d * g = log 10 n + k * ((c - g) / d)"
    by (simp add: diff_divide_distrib right_diff_distrib)
  then have "10 powr (log 10 n + k / d * c - k / d * g)
               = 10 powr (log 10 n) * 10 powr (k * ((c - g) / d))"
    by (simp only: powr_add)
  also have "\<dots> = n * exp ((c - g) / d)"
    using assms by (simp only: k) simp
  finally show ?thesis unfolding k_def .
qed

lemma residual_sweep_below:
  assumes "3 < c" "c \<le> 4"
  shows "residual sweep_catalog (Fin c) = Inr (Fin (100 * (1 - exp (- ((4 - c) / (5 - c))))))"
proof -
  have len: "length (magnitudes_in_catalog sweep_catalog)
               \<le> length (cumulative_magnitude_frequency sweep_catalog)"
    by (simp add: sweep_catalog_def)
  have edge: "lower_edge sweep_catalog (Fin c) = Fin (c - 1)"
    by (simp add: lower_edge_def sweep_catalog_def fl_sub_def)
  have above: "catalog_above_tested_magnitude sweep_catalog (Fin c) = [row 4, row 4]"
    unfolding catalog_above_tested_magnitude_def edge using assms
    by (simp add: sweep_catalog_def row_def fl_gt_def)
  have b: "b_value_gr sweep_catalog (Fin c) = Fin (log 10 (exp 1) / (5 - c))"
    unfolding b_value_gr_def edge above using assms
    by (simp add: np_mean_def row_def fl_sub_def)
  have a: "a_value_gr sweep_catalog (Fin c) = Fin (log 10 2 + log 10 (exp 1) / (5 - c) * c)"
    unfolding a_value_gr_def b above by simp
  have index: "index_of_magnitude_above_tested sweep_catalog (Fin c) = [1]"
    unfolding index_of_magnitude_above_tested_def using assms
    by (simp add: sweep_catalog_def fl_ge_def upt_0_2)
  have model: "pow10 (fl_sub (Fin (log 10 2 + log 10 (exp 1) / (5 - c) * c))
                 (fl_mult (Fin (log 10 (exp 1) / (5 - c))) (Fin 4)))
          = Fin (2 * exp ((c - 4) / (5 - c)))"
    using gutenberg_richter_model [of 2 "5 - c" c 4] by (simp add: fl_sub_def)
  have "(c - 4) / (5 - c) \<le> 0" using assms by (simp add: divide_le_0_iff)
  then have "exp ((c - 4) / (5 - c)) \<le> 1" by simp
  then have abs: "\<bar>2 - 2 * exp ((c - 4) / (5 - c))\<bar> = 2 - 2 * exp ((c - 4) / (5 - c))"
    by simp
  have neg: "(c - 4) / (5 - c) = - ((4 - c) / (5 - c))"
    by (metis minus_diff_eq minus_divide_left)
  have cf: "cumulative_magnitude_frequency sweep_catalog ! 1 = 2"
    "magnitudes_in_catalog sweep_catalog ! 1 = 4"
    by (simp_all add: sweep_catalog_def)
  have "residual sweep_catalog (Fin c) =
      Inr (fl_mult (fl_div (np_sum [fl_abs (fl_sub (Fin (real 2)) (Fin (2 * exp ((c - 4) / (5 - c)))))])
                      (Fin (real (sum_list [2]))))
             (Fin 100))"
    unfolding residual_Inr [OF len] index a b
    by (simp only: list.map cf model)
  also have "\<dots> = Inr (Fin ((2 - 2 * exp ((c - 4) / (5 - c))) / 2 * 100))"
    using abs by (simp add: np_sum_def fl_sub_def)
  also have "(2 - 2 * exp ((c - 4) / (5 - c))) / 2 * 100
               = 100 * (1 - exp (- ((4 - c) / (5 - c))))"
    unfolding neg by (simp add: diff_divide_distrib right_diff_distrib)
  finally show ?thesis .
qed

lemma residual_sweep_above:
  assumes "4 < c"
  shows "residual sweep_catalog (Fin c) = Inr NaN"
proof -
  have len: "length (magnitudes_in_catalog sweep_catalog)
               \<le> length (cumulative_magnitude_frequency sweep_catalog)"
    by (simp add: sweep_catalog_def)
  have index: "index_of_magnitude_above_tested sweep_catalog (Fin c) = []"
    unfolding index_of_magnitude_above_tested_def using assms
    by (simp add: sweep_catalog_def fl_ge_def upt_0_2)
  show ?thesis
    unfolding residual_Inr [OF len] index
    by (simp add: np_sum_def inf_of_sign_def)
qed

lemma one_minus_exp_neg_lower:
  fixes x :: real
  assumes "0 \<le> x"
  shows "x / (1 + x) \<le> 1 - exp (- x)"
proof -
  have "1 + x \<le> exp x" by (rule exp_ge_add_one_self)
  then have "inverse (exp x) \<le> inverse (1 + x)"
    using assms by (intro le_imp_inverse_le) simp_all
  then have "exp (- x) \<le> 1 / (1 + x)"
    by (simp add: exp_minus inverse_eq_divide)
  moreover have "1 - 1 / (1 + x) = x / (1 + x)"
    using assms by (simp add: field_simps)
  ultimately show ?thesis by linarith
qed

lemma one_minus_exp_neg_upper: "1 - exp (- x) \<le> (x::real)"
  using exp_ge_add_one_self [of "- x"] by simp

lemma one_minus_exp_neg_mono:
  fixes a x :: real
  assumes "a \<le> x" "0 \<le> a"
  shows "a / (1 + a) \<le> 1 - exp (- x)"
proof -
  have "a / (1 + a) \<le> 1 - exp (- a)"
    by (rule one_minus_exp_neg_lower [OF assms(2)])
  also have "\<dots> \<le> 1 - exp (- x)" using assms(1) by simp
  finally show ?thesis .
qed

lemma length_sweep_residuals: "length sweep_residuals = 15"
  by (simp add: sweep_residuals_def)

lemma percent_less:
  fixes a y :: real
  shows "a \<le> y \<Longrightarrow> t < 100 * a \<Longrightarrow> t < 100 * y"
  by simp

lemma sweep_residuals_nth:
  "i < 15 \<Longrightarrow> sweep_residuals ! i =
     (if i \<le> 5 then Fin (100 * (1 - exp (- ((5 - real i) / (15 - real i))))) else NaN)"
  unfolding sweep_residuals_def by (simp only: nth_map_upt add_0 minus_nat.diff_0)

lemma residual_sweep_tested:
  assumes "i < 15"
  shows "residual sweep_catalog (tested_magnitudes (Fin 4) ! i) = Inr (sweep_residuals ! i)"
proof (cases "i \<le> 5")
  case True
  let ?c = "4 - 1 / 2 + real i / 10"
  have c: "3 < ?c" "?c \<le> 4" using True by simp_all
  have "(4 - ?c) / (5 - ?c) = (5 - real i) / (15 - real i)"
    using True by (simp add: field_simps)
  with residual_sweep_below [OF c] show ?thesis
    using assms True by (simp only: tested_magnitudes_Fin sweep_residuals_nth if_True)
next
  case False
  let ?c = "4 - 1 / 2 + real i / 10"
  have c: "4 < ?c" using False by simp
  from residual_sweep_above [OF c] show ?thesis
    using assms False by (simp only: tested_magnitudes_Fin sweep_residuals_nth if_False)
qed

lemma residuals_loop_sweep:
  "residuals_loop sweep_catalog (tested_magnitudes (Fin 4)) = Inr sweep_residuals"
proof -
  have len: "length (magnitudes_in_catalog sweep_catalog)
               \<le> length (cumulative_magnitude_frequency sweep_catalog)"
    by (simp add: sweep_catalog_def)
  from residuals_loop_Inr [OF len, of "tested_magnitudes (Fin 4)"] obtain rs where
    rs: "residuals_loop sweep_catalog (tested_magnitudes (Fin 4)) = Inr rs" "length rs = 15"
      "\<forall>i<15. residual sweep_catalog (tested_magnitudes (Fin 4) ! i) = Inr (rs ! i)"
    by auto
  have "rs = sweep_residuals"
  proof (rule nth_equalityI)
    show "length rs = length sweep_residuals" using rs(2) by (simp add: length_sweep_residuals)
    fix i assume "i < length rs"
    then have i: "i < 15" using rs(2) by simp
    with rs(3) residual_sweep_tested [OF i] show "rs ! i = sweep_residuals ! i" by simp
  qed
  with rs(1) show ?thesis by simp
qed

lemma sweep_residuals_le_5:
  assumes "i < 15"
  shows "fl_le (sweep_residuals ! i) (Fin 5) \<longleftrightarrow> i = 5"
proof -
  consider "i < 5" | "i = 5" | "5 < i" by linarith
  then show ?thesis
  proof cases
    case 1
    then have "1 / 11 \<le> (5 - real i) / (15 - real i)"
      by (simp add: field_simps)
    from one_minus_exp_neg_mono [OF this] have
      "1 / 12 \<le> 1 - exp (- ((5 - real i) / (15 - real i)))" by simp
    then have "5 < 100 * (1 - exp (- ((5 - real i) / (15 - real i))))"
      by (rule percent_less) simp
    with 1 assms show ?thesis by (simp add: sweep_residuals_nth)
  next
    case 2
    then show ?thesis by (simp add: sweep_residuals_nth)
  next
    case 3
    with assms show ?thesis by (simp add: sweep_residuals_nth)
  qed
qed

lemma sweep_residuals_le_10:
  assumes "i < 15"
  shows "fl_le (sweep_residuals ! i) (Fin 10) \<longleftrightarrow> i = 4 \<or> i = 5"
proof -
  consider "i < 4" | "i = 4" | "i = 5" | "5 < i" by linarith
  then show ?thesis
  proof cases
    case 1
    then have "1 / 6 \<le> (5 - real i) / (15 - real i)"
      by (simp add: field_simps)
    from one_minus_exp_neg_mono [OF this] have
      "1 / 7 \<le> 1 - exp (- ((5 - real i) / (15 - real i)))" by simp
    then have "10 < 100 * (1 - exp (- ((5 - real i) / (15 - real i))))"
      by (rule percent_less) simp
    with 1 assms show ?thesis by (simp add: sweep_residuals_nth)
  next
    case 2
    have "1 - exp (- (1 / 11)) \<le> (1 / 11 :: real)" by (rule one_minus_exp_neg_upper)
    then have "100 * (1 - exp (- (1 / 11 :: real))) \<le> 100 * (1 / 11)"
      by (rule mult_left_mono) simp
    then have "100 * (1 - exp (- (1 / 11 :: real))) \<le> 10"
      by (rule order_trans) simp
    with 2 show ?thesis by (simp add: sweep_residuals_nth)
  next
    case 3
    then show ?thesis by (simp add: sweep_residuals_nth)
  next
    case 4
    with assms show ?thesis by (simp add: sweep_residuals_nth)
  qed
qed

lemma np_where_le_sweep_5: "np_where_le sweep_residuals (Fin 5) = [5]"
proof -
  have "np_where_le sweep_residuals (Fin 5) = filter (\<lambda>i. i = 5) [0..<15]"
    unfolding np_where_le_def
    by (rule filter_cong) (simp_all add: length_sweep_residuals sweep_residuals_le_5)
  also have "\<dots> = [5]" by code_simp
  finally show ?thesis .
qed

lemma np_where_le_sweep_10: "np_where_le sweep_residuals (Fin 10) = [4, 5]"
proof -
  have "np_where_le sweep_residuals (Fin 10) = filter (\<lambda>i. i = 4 \<or> i = 5) [0..<15]"
    unfolding np_where_le_def
    by (rule filter_cong) (simp_all add: length_sweep_residuals sweep_residuals_le_10)
  also have "\<dots> = [4, 5]" by code_simp
  finally show ?thesis .
qed


lemma foldl_fl_add_NaN: "foldl fl_add NaN xs = NaN"
  by (induction xs) simp_all

lemma np_sum_all_NaN:
  "np_sum (map (\<lambda>j. NaN) js) = (if js = [] then Fin 0 else NaN)"
  by (cases js) (simp_all add: np_sum_def foldl_fl_add_NaN)

lemma residual_empty_above:
  assumes "length (magnitudes_in_catalog self) \<le> length (cumulative_magnitude_frequency self)"
    and "catalog_above_tested_magnitude self m = []"
  shows "residual self m = Inr NaN"
proof -
  have b: "b_value_gr self m = NaN"
    unfolding b_value_gr_def assms(2) by (simp add: np_mean_def fl_sub_def)
  have a: "a_value_gr self m = NaN"
    unfolding a_value_gr_def b assms(2) by simp
  have terms: "(\<lambda>j. fl_abs (fl_sub (Fin (real (cumulative_magnitude_frequency self ! j)))
                  (pow10 (fl_sub NaN (fl_mult NaN (Fin (magnitudes_in_catalog self ! j)))))))
                 = (\<lambda>j. NaN)"
    by (simp add: fl_sub_def)
  show ?thesis
    unfolding residual_Inr [OF assms(1)] a b terms np_sum_all_NaN
    by (simp add: inf_of_sign_def)
qed

lemma catalog_above_NaN: "catalog_above_tested_magnitude self NaN = []"
  by (simp add: catalog_above_tested_magnitude_def lower_edge_def fl_sub_def fl_gt_def)



text \<open>
  Claim C6, amended. For every constructed catalog, when some residual is at most 5, the
  search at threshold 10 also finds an index, this index is at most the one the search
  at threshold 5 finds, and so is its cutoff: loosening the threshold never selects a
  later index or a greater magnitude.
\<close>

theorem loose_search_not_above_strict_search:
  assumes "Catalog_init path df delta = Inr self"
    and "maximum_curvature self = Inr mc"
    and "residuals_loop self (tested_magnitudes mc) = Inr rs"
    and "np_where_le rs (Fin 5) \<noteq> []"
  shows "np_where_le rs (Fin 10) \<noteq> [] \<and>
         np_where_le rs (Fin 10) ! 0 \<le> np_where_le rs (Fin 5) ! 0 \<and>
         fl_le (tested_magnitudes mc ! (np_where_le rs (Fin 10) ! 0))
           (tested_magnitudes mc ! (np_where_le rs (Fin 5) ! 0))"
proof -
  let ?w5 = "np_where_le rs (Fin 5)" and ?w10 = "np_where_le rs (Fin 10)"
  note D = Catalog_init_InrD [OF assms(1)]
  have len: "length (magnitudes_in_catalog self) \<le> length (cumulative_magnitude_frequency self)"
    by (subst D(6)) simp
  from residuals_loop_Inr [OF len, of "tested_magnitudes mc"] assms(3) have
    rs: "length rs = 15" "\<forall>i<15. residual self (tested_magnitudes mc ! i) = Inr (rs ! i)"
    by auto
  have "?w5 ! 0 \<in> set ?w5" using assms(4) by simp
  then have i5: "?w5 ! 0 < 15" "fl_le (rs ! (?w5 ! 0)) (Fin 5)"
    using rs(1) by (simp_all add: np_where_le_def)
  then have "fl_le (rs ! (?w5 ! 0)) (Fin 10)" by (simp add: fl_le_5_10)
  with i5(1) have mem: "?w5 ! 0 \<in> set ?w10"
    using rs(1) by (simp add: np_where_le_def)
  then have ne: "?w10 \<noteq> []" by auto
  have sorted: "sorted ?w10" unfolding np_where_le_def by (rule sorted_wrt_filter) simp
  from mem obtain k where "k < length ?w10" "?w10 ! k = ?w5 ! 0"
    by (auto simp: in_set_conv_nth)
  with sorted have le: "?w10 ! 0 \<le> ?w5 ! 0" by (metis le0 sorted_nth_mono)
  have "catalog self \<noteq> []" using D(1) D(3) by simp
  from maximum_curvature_Inr [OF this] assms(2) have "mc = NaN \<or> (\<exists>s. mc = Fin s)" by simp
  moreover have "mc \<noteq> NaN"
  proof
    assume "mc = NaN"
    then have "tested_magnitudes mc ! (?w5 ! 0) = NaN"
      using i5(1) by (simp add: tested_magnitudes_NaN)
    then have "residual self (tested_magnitudes mc ! (?w5 ! 0)) = Inr NaN"
      using residual_empty_above [OF len catalog_above_NaN] by simp
    with rs(2) i5(1) have "rs ! (?w5 ! 0) = NaN" by simp
    with i5(2) show False by simp
  qed
  ultimately obtain s where s: "mc = Fin s" by blast
  from le i5(1) have "?w10 ! 0 < 15" by simp
  with le i5(1) have "fl_le (tested_magnitudes mc ! (?w10 ! 0)) (tested_magnitudes mc ! (?w5 ! 0))"
    unfolding s by (simp add: tested_magnitudes_Fin)
  with ne le show ?thesis by simp
qed




text \<open>One event of magnitude 2 and two of magnitude 4 with a bin width of 2: the
  estimate is 4, the first residual that is at most 5 has index 5, and the method returns
  the sixth cutoff, 4.\<close>

theorem goodness_of_fit_selection_witness:
  "Catalog_init ''figures'' sweep_frame 2 = Inr sweep_catalog \<and>
   maximum_curvature sweep_catalog = Inr (Fin 4) \<and>
   residuals_loop sweep_catalog (tested_magnitudes (Fin 4)) = Inr sweep_residuals \<and>
   (LEAST i. i < 15 \<and> fl_le (sweep_residuals ! i) (Fin 5)) = 5 \<and>
   tested_magnitudes (Fin 4) ! 5 = Fin 4 \<and>
   goodness_of_fit_test sweep_catalog = Inr (Fin 4)"
proof -
  have least: "(LEAST i. i < 15 \<and> fl_le (sweep_residuals ! i) (Fin 5)) = 5"
    by (rule Least_equality) (use sweep_residuals_le_5 in auto)
  have "fl_le (sweep_residuals ! 5) (Fin 5)"
    using sweep_residuals_le_5 [of 5] by simp
  then have ex: "\<exists>i<15. fl_le (sweep_residuals ! i) (Fin 5)"
    by (intro exI [of _ 5]) simp
  have t: "tested_magnitudes (Fin 4) ! 5 = Fin 4"
    by (simp add: tested_magnitudes_Fin)
  from goodness_of_fit_selection [OF init_sweep] obtain mc rs where
    "maximum_curvature sweep_catalog = Inr mc"
    "residuals_loop sweep_catalog (tested_magnitudes mc) = Inr rs"
    "goodness_of_fit_test sweep_catalog =
       Inr (if \<exists>i<15. fl_le (rs ! i) (Fin 5)
            then tested_magnitudes mc ! (LEAST i. i < 15 \<and> fl_le (rs ! i) (Fin 5))
            else if \<exists>i<15. fl_le (rs ! i) (Fin 10)
            then tested_magnitudes mc ! (LEAST i. i < 15 \<and> fl_le (rs ! i) (Fin 10))
            else mc)"
    by blast
  moreover from this(1) have "mc = Fin 4" by (simp add: maximum_curvature_sweep)
  moreover from this calculation(2) have "rs = sweep_residuals"
    by (simp add: residuals_loop_sweep)
  ultimately have "goodness_of_fit_test sweep_catalog = Inr (Fin 4)"
    using ex by (simp only: least t if_True)
  with least t init_sweep maximum_curvature_sweep residuals_loop_sweep show ?thesis by simp
qed



text \<open>
  Claim C6. The claim: the magnitude that the search at threshold 5 selects is at most
  the magnitude that the search at threshold 10 would select on the same residuals. For
  one event of magnitude 2 and two of magnitude 4, with a bin width of 2, the residuals
  of the cutoffs 3.9 and 4 are about 8.7 and 0: the search at threshold 5 selects 4,
  the search at threshold 10 would select 3.9, and 4 is not at most 3.9.
\<close>

theorem strict_search_selects_higher_magnitude:
  "Catalog_init ''figures'' sweep_frame 2 = Inr sweep_catalog \<and>
   maximum_curvature sweep_catalog = Inr (Fin 4) \<and>
   residuals_loop sweep_catalog (tested_magnitudes (Fin 4)) = Inr sweep_residuals \<and>
   np_where_le sweep_residuals (Fin 5) = [5] \<and>
   np_where_le sweep_residuals (Fin 10) = [4, 5] \<and>
   tested_magnitudes (Fin 4) ! 5 = Fin 4 \<and>
   tested_magnitudes (Fin 4) ! 4 = Fin (39 / 10) \<and>
   \<not> fl_le (tested_magnitudes (Fin 4) ! ([5] ! 0)) (tested_magnitudes (Fin 4) ! ([4, 5] ! 0))"
  using init_sweep maximum_curvature_sweep residuals_loop_sweep np_where_le_sweep_5
    np_where_le_sweep_10 by (simp add: tested_magnitudes_Fin)

text \<open>For one event of magnitude 2 and two of magnitude 4, with a bin width of 2, the
  search at threshold 10 finds the index 4 and the search at threshold 5 the index 5.\<close>

theorem loose_search_not_above_strict_search_witness:
  "Catalog_init ''figures'' sweep_frame 2 = Inr sweep_catalog \<and>
   maximum_curvature sweep_catalog = Inr (Fin 4) \<and>
   residuals_loop sweep_catalog (tested_magnitudes (Fin 4)) = Inr sweep_residuals \<and>
   np_where_le sweep_residuals (Fin 5) \<noteq> [] \<and>
   np_where_le sweep_residuals (Fin 10) ! 0 \<le> np_where_le sweep_residuals (Fin 5) ! 0 \<and>
   fl_le (tested_magnitudes (Fin 4) ! (np_where_le sweep_residuals (Fin 10) ! 0))
     (tested_magnitudes (Fin 4) ! (np_where_le sweep_residuals (Fin 5) ! 0)) \<and>
   np_where_le sweep_residuals (Fin 10) ! 0 = 4 \<and>
   np_where_le sweep_residuals (Fin 5) ! 0 = 5"
proof -
  have ne: "np_where_le sweep_residuals (Fin 5) \<noteq> []"
    by (simp add: np_where_le_sweep_5)
  from loose_search_not_above_strict_search [OF init_sweep maximum_curvature_sweep residuals_loop_sweep ne]
  show ?thesis
    using init_sweep maximum_curvature_sweep residuals_loop_sweep ne
    by (simp add: np_where_le_sweep_5 np_where_le_sweep_10)
qed

end
